theory Spec2Isabelle
  imports Complex_Main
begin

section \<open>Data model\<close>

text \<open>
  The routine \<^verbatim>\<open>nnqf_filter\<close> of \<^verbatim>\<open>src/nnqf_filter.py\<close> works on numpy arrays of
  float64.  A finite float64 is modelled by the real number it denotes; the infinities
  and NaN are kept explicit in \<open>float64\<close>.  How numpy rounds the results of line 81 and
  line 82 is not decided by the source and is a parameter of the model (section on the
  feature weighting), so that the statements about the filter hold for every rounding.

  A feature matrix is a list of rows; a numpy array is always rectangular, which the
  predicate \<open>is_matrix\<close> records.
\<close>

type_synonym matrix = "real list list"

datatype float64 = Fin real | PInf | NInf | NaN

text \<open>
  The accumulator \<^verbatim>\<open>y_neighbors\<close> is one-dimensional after line 97 and becomes
  two-dimensional with the first \<^verbatim>\<open>np.vstack\<close>, so the dimension is part of the value.
\<close>

datatype ndarray = Arr1 "real list" | Arr2 "real list list"

text \<open>
  \<open>ValueError\<close>, \<open>IndexError\<close> and \<open>AxisError\<close> are the exceptions that numpy and the
  nearest-neighbour library raise.  The remaining constructors are the failures named by
  section 7 of the specification; no line of the source raises them.
\<close>

datatype error =
    ValueError | IndexError | AxisError
  | ShapeMismatch | InvalidK | InvalidQuantile | InvalidMinkowskiOrder | DegenerateFeature

definition ncols :: "'a list list \<Rightarrow> nat" where
  "ncols X = (case X of [] \<Rightarrow> 0 | r # _ \<Rightarrow> length r)"

definition is_matrix :: "'a list list \<Rightarrow> nat \<Rightarrow> nat \<Rightarrow> bool" where
  "is_matrix X N S = (length X = N \<and> list_all (\<lambda>r. length r = S) X)"

section \<open>Feature weighting (lines 80 to 82)\<close>

text \<open>
  Lines 81 and 82 are evaluated by numpy in float64.  Which float64 \<^verbatim>\<open>np.var\<close> returns
  for a column, and to which float64 the exact result of one division or multiplication
  is rounded (an infinity on overflow), is fixed by the library and the hardware, not by
  the source.  Both are fields of the arithmetic \<open>ar\<close> that the model takes as a
  parameter; nothing is assumed about them.
\<close>

record float64_arith =
  np_var :: "real list \<Rightarrow> float64"
  round64 :: "real \<Rightarrow> float64"

definition column :: "matrix \<Rightarrow> nat \<Rightarrow> real list" where
  "column X j = map (\<lambda>r. r ! j) X"

text \<open>\<^verbatim>\<open>np.var(x_input, axis = 0)\<close>: one variance per column.\<close>

definition np_var_axis0 :: "float64_arith \<Rightarrow> matrix \<Rightarrow> float64 list" where
  "np_var_axis0 ar X = map (\<lambda>j. np_var ar (column X j)) [0..<ncols X]"

text \<open>
  \<^verbatim>\<open>var_weights**(-1)\<close>.  The special cases are those of IEEE 754: the reciprocal of a
  variance that was computed as zero is infinity (numpy warns, it does not raise), the
  reciprocal of an infinity is zero, and NaN stays NaN.  A computed variance is never
  the negative zero.
\<close>

fun np_reciprocal :: "float64_arith \<Rightarrow> float64 \<Rightarrow> float64" where
  "np_reciprocal ar (Fin v) = (if v = 0 then PInf else round64 ar (1 / v))"
| "np_reciprocal ar PInf = Fin 0"
| "np_reciprocal ar NInf = Fin 0"
| "np_reciprocal ar NaN = NaN"

text \<open>
  The product of a weight and a finite entry: rounded when the weight is finite; an
  infinite weight gives an infinity of the sign of the entry, and NaN for the entry zero.
\<close>

fun np_multiply :: "float64_arith \<Rightarrow> float64 \<Rightarrow> real \<Rightarrow> float64" where
  "np_multiply ar (Fin w) x = round64 ar (w * x)"
| "np_multiply ar PInf x = (if 0 < x then PInf else if x < 0 then NInf else NaN)"
| "np_multiply ar NInf x = (if 0 < x then NInf else if x < 0 then PInf else NaN)"
| "np_multiply ar NaN x = NaN"

text \<open>
  Lines 80 to 82.  The weight vector of shape \<open>(S,)\<close> is broadcast over the rows of the
  matrix of shape \<open>(N, S)\<close>.
\<close>

definition feature_weighter :: "float64_arith \<Rightarrow> matrix \<Rightarrow> bool \<Rightarrow> float64 list list" where
  "feature_weighter ar x_input var_weighting =
     (if var_weighting
      then map (\<lambda>r. map2 (np_multiply ar)
                        (map (np_reciprocal ar) (np_var_axis0 ar x_input)) r) x_input
      else map (map Fin) x_input)"

section \<open>Nearest-neighbour search (lines 89 and 90)\<close>

text \<open>
  Modelled from the spec: the nearest-neighbour search is the external library class
  \<^verbatim>\<open>sklearn.neighbors.NearestNeighbors\<close>, which is not part of the repository.  The
  definitions below follow section 4.2 of the specification (Minkowski distance of order
  \<open>p\<close>, the \<open>k\<close> nearest rows in ascending distance, the row itself included, ties
  broken by ascending index) and the library's input validation, which rejects with
  \<open>ValueError\<close> a number of neighbours below one or above the number of rows, a
  non-positive order, an empty matrix and a matrix with a non-finite entry.

  Rows are ranked by the sum of the \<open>p\<close>-th powers of the coordinate differences; the
  distance is its \<open>p\<close>-th root, which gives the same ranking (lemma
  \<open>minkowski_distance_le_iff\<close>).  The distances are exact: the rounding of the library's
  own distance computation is not modelled, so what depends on the ranking of rows that
  are nearly equal holds for the exact search only.
\<close>

definition minkowski_rdist :: "nat \<Rightarrow> real list \<Rightarrow> real list \<Rightarrow> real" where
  "minkowski_rdist p a b = sum_list (map (\<lambda>(u, v). \<bar>u - v\<bar> ^ p) (zip a b))"

definition minkowski_distance :: "nat \<Rightarrow> real list \<Rightarrow> real list \<Rightarrow> real" where
  "minkowski_distance p a b = root p (minkowski_rdist p a b)"

definition kneighbors_row :: "matrix \<Rightarrow> nat \<Rightarrow> nat \<Rightarrow> nat \<Rightarrow> nat list" where
  "kneighbors_row X k p i =
     take k (sort_key (\<lambda>j. minkowski_rdist p (X ! i) (X ! j)) [0..<length X])"

fun finite_value :: "float64 \<Rightarrow> real option" where
  "finite_value (Fin r) = Some r"
| "finite_value PInf = None"
| "finite_value NInf = None"
| "finite_value NaN = None"

definition check_array :: "float64 list list \<Rightarrow> error + matrix" where
  "check_array X =
     (if X = [] \<or> ncols X = 0 then Inl ValueError
      else case those (map (\<lambda>r. those (map finite_value r)) X) of
             None \<Rightarrow> Inl ValueError
           | Some Xr \<Rightarrow> Inr Xr)"

definition kneighbors :: "float64 list list \<Rightarrow> int \<Rightarrow> int \<Rightarrow> error + nat list list" where
  "kneighbors X n_neighbors p =
     (if n_neighbors < 1 \<or> p \<le> 0 then Inl ValueError
      else case check_array X of
             Inl e \<Rightarrow> Inl e
           | Inr Xr \<Rightarrow>
               if int (length Xr) < n_neighbors then Inl ValueError
               else Inr (map (kneighbors_row Xr (nat n_neighbors) (nat p)) [0..<length Xr]))"

section \<open>Neighbour aggregation (lines 97 to 100)\<close>

text \<open>
  \<^verbatim>\<open>y_output[indx[i,:]]\<close>: numpy raises \<open>IndexError\<close> for a row index outside the index
  table and for a gathered index outside \<^verbatim>\<open>y_output\<close>.
\<close>

definition index_row :: "nat list list \<Rightarrow> nat \<Rightarrow> error + nat list" where
  "index_row indx i = (if i < length indx then Inr (indx ! i) else Inl IndexError)"

definition np_take :: "real list \<Rightarrow> nat list \<Rightarrow> error + real list" where
  "np_take y idx =
     (if list_all (\<lambda>j. j < length y) idx then Inr (map (\<lambda>j. y ! j) idx) else Inl IndexError)"

definition gather_row :: "real list \<Rightarrow> nat list list \<Rightarrow> nat \<Rightarrow> error + real list" where
  "gather_row y indx i =
     (case index_row indx i of Inl e \<Rightarrow> Inl e | Inr idx \<Rightarrow> np_take y idx)"

text \<open>
  \<^verbatim>\<open>np.vstack([y_neighbors, values_to_add])\<close>: a one-dimensional array counts as a single
  row; rows of different lengths raise \<open>ValueError\<close>.
\<close>

fun np_vstack :: "ndarray \<Rightarrow> real list \<Rightarrow> error + ndarray" where
  "np_vstack (Arr1 a) v =
     (if length a = length v then Inr (Arr2 [a, v]) else Inl ValueError)"
| "np_vstack (Arr2 rows) v =
     (if list_all (\<lambda>r. length r = length v) rows then Inr (Arr2 (rows @ [v]))
      else Inl ValueError)"

text \<open>The loop of lines 98 to 100 over the row numbers that remain.\<close>

fun aggregate_loop ::
  "real list \<Rightarrow> nat list list \<Rightarrow> nat list \<Rightarrow> ndarray \<Rightarrow> error + ndarray" where
  "aggregate_loop y indx [] y_neighbors = Inr y_neighbors"
| "aggregate_loop y indx (i # rest) y_neighbors =
     (case gather_row y indx i of
        Inl e \<Rightarrow> Inl e
      | Inr values_to_add \<Rightarrow>
          (case np_vstack y_neighbors values_to_add of
             Inl e \<Rightarrow> Inl e
           | Inr stacked \<Rightarrow> aggregate_loop y indx rest stacked))"

text \<open>
  Lines 97 to 100: the accumulator is seeded with the gathered row 0 as a one-dimensional
  array, then the rows \<open>1, \<dots>, N - 1\<close> are stacked below it.
\<close>

definition neighbor_aggregator :: "real list \<Rightarrow> nat list list \<Rightarrow> nat \<Rightarrow> error + ndarray" where
  "neighbor_aggregator y_output indx N =
     (case gather_row y_output indx 0 of
        Inl e \<Rightarrow> Inl e
      | Inr seed \<Rightarrow> aggregate_loop y_output indx [1..<N] (Arr1 seed))"

section \<open>Quantile reduction (line 106)\<close>

text \<open>
  The default method of \<^verbatim>\<open>np.quantile\<close>: linear interpolation between the two order
  statistics around the virtual index \<open>(n - 1) * q\<close>, in exact arithmetic.
\<close>

definition quantile_linear :: "real list \<Rightarrow> real \<Rightarrow> real" where
  "quantile_linear xs q =
     (let s = sort xs;
          n = length s;
          v = real (n - 1) * q;
          lo = nat \<lfloor>v\<rfloor>;
          hi = min (lo + 1) (n - 1);
          g = v - real lo
      in s ! lo + g * (s ! hi - s ! lo))"

text \<open>
  \<^verbatim>\<open>np.quantile(y_neighbors, q=q_quantile, axis=1)\<close>: the probability is validated first
  (\<open>ValueError\<close>), then the axis (\<open>AxisError\<close> on a one-dimensional array).  A row without
  values cannot be indexed; the routine never produces one, since the neighbour search
  rejects fewer than one neighbour.
\<close>

definition np_quantile_axis1 :: "ndarray \<Rightarrow> real \<Rightarrow> error + real list" where
  "np_quantile_axis1 a q =
     (if q < 0 \<or> 1 < q then Inl ValueError
      else case a of
             Arr1 v \<Rightarrow> Inl AxisError
           | Arr2 rows \<Rightarrow>
               if list_ex (\<lambda>r. r = []) rows then Inl IndexError
               else Inr (map (\<lambda>r. quantile_linear r q) rows))"

section \<open>The filter (lines 40 to 108)\<close>

definition nnqf_filter ::
  "float64_arith \<Rightarrow> matrix \<Rightarrow> real list \<Rightarrow> int \<Rightarrow> real \<Rightarrow> bool \<Rightarrow> int
     \<Rightarrow> error + real list" where
  "nnqf_filter ar x_input y_output num_neighbors q_quantile var_weighting minkowski_dist =
     (let x_weighted = feature_weighter ar x_input var_weighting in
      case kneighbors x_weighted num_neighbors minkowski_dist of
        Inl e \<Rightarrow> Inl e
      | Inr indx \<Rightarrow>
          (case neighbor_aggregator y_output indx (length x_weighted) of
             Inl e \<Rightarrow> Inl e
           | Inr y_neighbors \<Rightarrow> np_quantile_axis1 y_neighbors q_quantile))"

section \<open>The example of lines 114 to 126\<close>

definition x_input_example :: matrix where
  "x_input_example =
     [[5,3,4,6,7,8,2],
      [6,3,2,5,1,1,0],
      [7,7,8,3,5,2,9],
      [4,5,7,2,4,6,6],
      [0,1,2,4,4,5,9],
      [4,2,5,6,1,3,2],
      [7,4,8,1,9,5,3],
      [9,7,0,3,5,6,3],
      [8,3,7,3,9,1,1],
      [3,6,7,3,9,0,4]]"

definition y_output_example :: "real list" where
  "y_output_example = [1,5,7,3,8,2,4,6,8,4]"

section \<open>Auxiliary notions for the statements\<close>

text \<open>
  The interpolation of \<open>quantile_linear\<close> at a virtual index \<open>v\<close> of a sorted list.
\<close>

definition interp :: "real list \<Rightarrow> real \<Rightarrow> real" where
  "interp s v =
     (let lo = nat \<lfloor>v\<rfloor>; hi = min (lo + 1) (length s - 1)
      in s ! lo + (v - real lo) * (s ! hi - s ! lo))"

text \<open>All rows of an array have \<open>c\<close> entries.\<close>

fun row_len :: "ndarray \<Rightarrow> nat \<Rightarrow> bool" where
  "row_len (Arr1 a) c = (length a = c)"
| "row_len (Arr2 rows) c = list_all (\<lambda>r. length r = c) rows"

text \<open>The array after stacking a list of rows below it, one \<^verbatim>\<open>np.vstack\<close> per row.\<close>

fun stack_rows :: "ndarray \<Rightarrow> real list list \<Rightarrow> ndarray" where
  "stack_rows a [] = a"
| "stack_rows (Arr1 a) (r # rs) = Arr2 (a # r # rs)"
| "stack_rows (Arr2 rows) (r # rs) = Arr2 (rows @ r # rs)"

text \<open>Row \<open>i\<close> of the neighbour output table: \<^verbatim>\<open>y_output[indx[i,:]]\<close> when it succeeds.\<close>

definition gathered :: "real list \<Rightarrow> nat list list \<Rightarrow> nat \<Rightarrow> real list" where
  "gathered y indx i = map (\<lambda>j. y ! j) (indx ! i)"

text \<open>
  The population variance of the specification (section 4.1, \<open>ddof = 0\<close>) in exact
  arithmetic: the mean squared deviation from the mean.
\<close>

definition mean :: "real list \<Rightarrow> real" where
  "mean xs = sum_list xs / real (length xs)"

definition variance :: "real list \<Rightarrow> real" where
  "variance xs = mean (map (\<lambda>x. (x - mean xs) ^ 2) xs)"

definition column_variances :: "matrix \<Rightarrow> real list" where
  "column_variances X = map (\<lambda>j. variance (column X j)) [0..<ncols X]"

text \<open>
  The arithmetic without rounding.  It agrees with float64 where every intermediate
  value is representable, as in the two-row instances at which it is used below; it
  is not the arithmetic of the code elsewhere.
\<close>

definition exact_arith :: float64_arith where
  "exact_arith = \<lparr>np_var = (\<lambda>xs. Fin (variance xs)), round64 = Fin\<rparr>"

text \<open>
  The (possibly variance-weighted) feature rows of the specification in exact
  arithmetic, meaningful when no variance is zero.
\<close>

definition weighted_matrix :: "matrix \<Rightarrow> bool \<Rightarrow> matrix" where
  "weighted_matrix X w =
     (if w then map (\<lambda>r. map2 (\<lambda>v x. 1 / v * x) (column_variances X) r) X else X)"

text \<open>
  The valid inputs of the specification: a rectangular matrix with at least one row and
  one column, no constant column when variance weighting is on, one output per row, a
  number of neighbours between 1 and \<open>N\<close>, a probability in \<open>[0, 1]\<close> and a positive
  Minkowski order.
\<close>

definition valid_features :: "matrix \<Rightarrow> bool \<Rightarrow> bool" where
  "valid_features X w =
     (X \<noteq> [] \<and> 0 < ncols X \<and> list_all (\<lambda>r. length r = ncols X) X
      \<and> (w \<longrightarrow> list_all (\<lambda>v. v \<noteq> 0) (column_variances X)))"

definition valid_input :: "matrix \<Rightarrow> real list \<Rightarrow> int \<Rightarrow> real \<Rightarrow> bool \<Rightarrow> int \<Rightarrow> bool" where
  "valid_input X y k q w p =
     (valid_features X w \<and> length y = length X \<and> 1 \<le> k \<and> k \<le> int (length X)
      \<and> 0 \<le> q \<and> q \<le> 1 \<and> 0 < p)"

text \<open>The output values of the \<open>k\<close> neighbours of sample \<open>i\<close>.\<close>

definition neighbor_outputs :: "matrix \<Rightarrow> real list \<Rightarrow> nat \<Rightarrow> nat \<Rightarrow> nat \<Rightarrow> real list" where
  "neighbor_outputs Xw y k p i = map (\<lambda>j. y ! j) (kneighbors_row Xw k p i)"

section \<open>Input validation of the neighbour search\<close>

lemma those_Some [simp]: "those (map Some xs) = Some xs"
  by (induction xs) simp_all

lemma those_finite_Fin [simp]: "those (map (finite_value \<circ> Fin) r) = Some r"
  by (induction r) simp_all

lemma those_rows_Fin [simp]:
  "those (map ((\<lambda>r. those (map finite_value r)) \<circ> map Fin) X) = Some X"
  by (induction X) simp_all

lemma those_length: "those xs = Some ys \<Longrightarrow> length ys = length xs"
  by (induction xs arbitrary: ys) (auto split: option.splits)

lemma those_None_iff: "those xs = None \<longleftrightarrow> None \<in> set xs"
  by (induction xs) (auto split: option.splits)

lemma those_nth: "those xs = Some ys \<Longrightarrow> i < length xs \<Longrightarrow> xs ! i = Some (ys ! i)"
proof (induction xs arbitrary: ys i)
  case Nil
  then show ?case by simp
next
  case (Cons a xs)
  then show ?case by (cases i) (auto split: option.splits)
qed

lemma ncols_map [simp]: "ncols (map (map f) X) = ncols X"
  by (cases X) (simp_all add: ncols_def)

lemma check_array_unweighted:
  assumes "X \<noteq> []" "ncols X \<noteq> 0"
  shows "check_array (map (map Fin) X) = Inr X"
  using assms by (simp add: check_array_def)

lemma check_array_length: "check_array X = Inr Xr \<Longrightarrow> length Xr = length X \<and> Xr \<noteq> []"
  by (auto simp: check_array_def split: if_splits option.splits dest: those_length)

lemma check_array_row_lengths:
  assumes "check_array X = Inr Xr" "list_all (\<lambda>r. length r = S) X"
  shows "list_all (\<lambda>r. length r = S) Xr"
proof -
  have t: "those (map (\<lambda>r. those (map finite_value r)) X) = Some Xr"
    using assms(1) by (auto simp: check_array_def split: if_splits option.splits)
  have len: "length Xr = length X"
    using those_length [OF t] by simp
  have "length (Xr ! i) = S" if "i < length X" for i
  proof -
    have "map (\<lambda>r. those (map finite_value r)) X ! i = Some (Xr ! i)"
      using those_nth [OF t] that by simp
    then have "those (map finite_value (X ! i)) = Some (Xr ! i)"
      using that by simp
    then have "length (Xr ! i) = length (map finite_value (X ! i))"
      by (rule those_length)
    then show ?thesis
      using assms(2) that by (simp add: list_all_length)
  qed
  then show ?thesis
    using len by (simp add: list_all_length)
qed

lemma check_array_error: "check_array X = Inl e \<Longrightarrow> e = ValueError"
  by (auto simp: check_array_def split: if_splits option.splits)

lemma kneighbors_error: "kneighbors X k p = Inl e \<Longrightarrow> e = ValueError"
  by (auto simp: kneighbors_def split: if_splits sum.splits dest: check_array_error)

lemma kneighbors_invalid_k:
  "k < 1 \<or> int (length X) < k \<Longrightarrow> kneighbors X k p = Inl ValueError"
  by (auto simp: kneighbors_def split: sum.splits dest: check_array_error check_array_length)


lemma length_feature_weighter [simp]: "length (feature_weighter ar X w) = length X"
  by (simp add: feature_weighter_def)

lemma kneighbors_row_single: "kneighbors_row [x] (Suc 0) p 0 = [0]"
  by (simp add: kneighbors_row_def)

section \<open>The feature weighting stage\<close>

lemma is_matrix_ncols: "is_matrix X N S \<Longrightarrow> 0 < N \<Longrightarrow> ncols X = S"
  by (cases X) (simp_all add: is_matrix_def ncols_def)


text \<open>
  With variance weighting, entry \<open>(i, j)\<close> is the float64 product of the entry with the
  float64 reciprocal of the variance that \<^verbatim>\<open>np.var\<close> returns for column \<open>j\<close>.
\<close>

lemma feature_weighter_entry:
  assumes "is_matrix X N S" "i < N" "j < S"
  shows "feature_weighter ar X True ! i ! j
         = np_multiply ar (np_reciprocal ar (np_var ar (column X j))) (X ! i ! j)"
proof -
  have N: "length X = N" and r: "length (X ! i) = S"
    using assms(1,2) by (simp_all add: is_matrix_def list_all_length)
  have S: "ncols X = S"
    using is_matrix_ncols [OF assms(1)] assms(2) by simp
  let ?ws = "map (np_reciprocal ar) (np_var_axis0 ar X)"
  have "length ?ws = S" by (simp add: np_var_axis0_def S)
  then have "map2 (np_multiply ar) ?ws (X ! i) ! j = np_multiply ar (?ws ! j) (X ! i ! j)"
    using r assms(3) by simp
  moreover have "?ws ! j = np_reciprocal ar (np_var ar (column X j))"
    using assms(3) S by (simp add: np_var_axis0_def)
  ultimately show ?thesis
    using assms(2) N by (simp add: feature_weighter_def)
qed

text \<open>
  The entry in full: for a variance computed as zero the reciprocal is infinity and the
  entry is infinite with the sign of the input entry, or NaN for the input entry zero;
  for a finite variance other than zero it is the rounded product with the rounded
  reciprocal.
\<close>

lemma feature_weighter_entry_cases:
  assumes "is_matrix X N S" "i < N" "j < S"
  shows "feature_weighter ar X True ! i ! j
         = (case np_var ar (column X j) of
              Fin v \<Rightarrow>
                if v = 0
                then (if 0 < X ! i ! j then PInf else if X ! i ! j < 0 then NInf else NaN)
                else (case round64 ar (1 / v) of
                        Fin r \<Rightarrow> round64 ar (r * X ! i ! j)
                      | PInf \<Rightarrow>
                          if 0 < X ! i ! j then PInf else if X ! i ! j < 0 then NInf else NaN
                      | NInf \<Rightarrow>
                          if 0 < X ! i ! j then NInf else if X ! i ! j < 0 then PInf else NaN
                      | NaN \<Rightarrow> NaN)
            | PInf \<Rightarrow> round64 ar 0
            | NInf \<Rightarrow> round64 ar 0
            | NaN \<Rightarrow> NaN)"
  using feature_weighter_entry [OF assms, of ar] by (simp split: float64.splits)

lemma feature_weighter_shape:
  assumes "is_matrix X N S"
  shows "is_matrix (feature_weighter ar X w) N S"
proof (cases "0 < N")
  case False
  then show ?thesis using assms by (simp add: is_matrix_def feature_weighter_def)
next
  case True
  have S: "ncols X = S" using is_matrix_ncols [OF assms True] .
  show ?thesis
    using assms S
    by (auto simp: is_matrix_def feature_weighter_def list_all_iff np_var_axis0_def)
qed

text \<open>Without rounding the weighted matrix is the one of the specification.\<close>

lemma np_var_axis0_exact: "np_var_axis0 exact_arith X = map Fin (column_variances X)"
  by (simp add: np_var_axis0_def exact_arith_def column_variances_def)

lemma those_weighted_row:
  assumes "list_all (\<lambda>v. v \<noteq> 0) vs"
  shows "those (map finite_value
                  (map2 (np_multiply exact_arith) (map (np_reciprocal exact_arith) (map Fin vs)) r))
         = Some (map2 (\<lambda>v x. 1 / v * x) vs r)"
  using assms
proof (induction vs arbitrary: r)
  case Nil
  then show ?case by simp
next
  case (Cons v vs)
  then show ?case
    by (cases r) (simp_all add: exact_arith_def)
qed

lemma those_weighted_rows:
  assumes "list_all (\<lambda>v. v \<noteq> 0) vs"
  shows "those (map (\<lambda>r. those (map finite_value r))
                  (map (\<lambda>r. map2 (np_multiply exact_arith)
                                 (map (np_reciprocal exact_arith) (map Fin vs)) r) X))
         = Some (map (\<lambda>r. map2 (\<lambda>v x. 1 / v * x) vs r) X)"
  by (induction X)
    (simp_all only: list.map those.simps those_weighted_row [OF assms] option.case option.map)

lemma ncols_weighted:
  assumes "X \<noteq> []" "list_all (\<lambda>r. length r = ncols X) X"
  shows "ncols (feature_weighter ar X True) = ncols X"
proof -
  obtain r rest where X: "X = r # rest" using assms(1) by (cases X) auto
  have "length r = ncols X" using assms(2) X by simp
  then show ?thesis
    unfolding feature_weighter_def X by (simp add: ncols_def np_var_axis0_def)
qed

lemma check_array_features:
  assumes "X \<noteq> []" "0 < ncols X" "list_all (\<lambda>r. length r = ncols X) X"
    and "w \<longrightarrow> list_all (\<lambda>v. v \<noteq> 0) (column_variances X)"
  shows "check_array (feature_weighter exact_arith X w) = Inr (weighted_matrix X w)"
proof (cases w)
  case False
  then show ?thesis
    using check_array_unweighted [OF assms(1)] assms(2)
    by (simp add: feature_weighter_def weighted_matrix_def)
next
  case True
  let ?vs = "column_variances X"
  have nz: "list_all (\<lambda>v. v \<noteq> 0) ?vs" using assms(4) True by simp
  have "those (map (\<lambda>r. those (map finite_value r)) (feature_weighter exact_arith X True))
        = Some (weighted_matrix X True)"
    unfolding feature_weighter_def weighted_matrix_def np_var_axis0_exact
    by (simp only: if_True those_weighted_rows [OF nz])
  moreover have "feature_weighter exact_arith X True \<noteq> []"
    using assms(1) by (simp add: feature_weighter_def)
  moreover have "ncols (feature_weighter exact_arith X True) \<noteq> 0"
    using ncols_weighted [OF assms(1,3)] assms(2) by simp
  ultimately show ?thesis
    using True by (simp add: check_array_def)
qed

lemma check_array_valid:
  "valid_features X w
   \<Longrightarrow> check_array (feature_weighter exact_arith X w) = Inr (weighted_matrix X w)"
  unfolding valid_features_def by (intro check_array_features) simp_all

section \<open>A single sample\<close>

lemma kneighbors_single_row:
  assumes "x \<noteq> []" "0 < p"
  shows "kneighbors (feature_weighter ar [x] False) 1 p = Inr [[0]]"
proof -
  have "check_array (feature_weighter ar [x] False) = Inr [x]"
    using check_array_unweighted [of "[x]"] assms(1)
    by (simp add: feature_weighter_def ncols_def)
  then show ?thesis
    using assms(2) by (simp add: kneighbors_def kneighbors_row_single)
qed

lemma aggregator_single_row: "neighbor_aggregator [y0] [[0]] (Suc 0) = Inr (Arr1 [y0])"
  by (simp add: neighbor_aggregator_def gather_row_def index_row_def np_take_def)

text \<open>
  C10.  With a single sample (\<open>N = 1\<close>, one neighbour, no variance weighting, a
  probability in \<open>[0, 1]\<close> and a positive order) the loop of lines 98 to 100 has no
  iteration, the accumulator stays the one-dimensional array of line 97, and the
  quantile over axis 1 raises \<open>AxisError\<close>: the filter returns no vector.
\<close>

theorem nnqf_filter_single_sample_fails:
  assumes "x \<noteq> []" and "0 \<le> q" and "q \<le> 1" and "0 < p"
  shows "aggregate_loop [y0] [[0]] [1..<length [x]] (Arr1 [y0]) = Inr (Arr1 [y0])
       \<and> neighbor_aggregator [y0] [[0]] (length [x]) = Inr (Arr1 [y0])
       \<and> np_quantile_axis1 (Arr1 [y0]) q = Inl AxisError
       \<and> nnqf_filter ar [x] [y0] 1 q False p = Inl AxisError"
proof -
  have "nnqf_filter ar [x] [y0] 1 q False p = Inl AxisError"
    using assms kneighbors_single_row [of x p]
    by (simp add: nnqf_filter_def aggregator_single_row np_quantile_axis1_def)
  then show ?thesis
    using assms by (simp add: aggregator_single_row np_quantile_axis1_def)
qed

theorem nnqf_filter_single_sample_fails_witness:
  "[3, 4] \<noteq> ([] :: real list) \<and> (0 :: real) \<le> 1 / 2 \<and> (1 / 2 :: real) \<le> 1 \<and> (0 :: int) < 2
   \<and> neighbor_aggregator [7] [[0]] (length [[3, 4 :: real]]) = Inr (Arr1 [7])
   \<and> (\<forall>ar. nnqf_filter ar [[3, 4]] [7] 1 (1 / 2) False 2 = Inl AxisError)"
  using nnqf_filter_single_sample_fails [of "[3, 4]" "1 / 2" 2 7] by simp

section \<open>The failures of the filter\<close>

lemma gather_row_error: "gather_row y indx i = Inl e \<Longrightarrow> e = IndexError"
  by (auto simp: gather_row_def index_row_def np_take_def split: if_splits)

lemma np_vstack_error: "np_vstack a v = Inl e \<Longrightarrow> e = ValueError"
  by (cases a) (auto split: if_splits)

lemma aggregate_loop_error:
  "aggregate_loop y indx is acc = Inl e \<Longrightarrow> e = IndexError \<or> e = ValueError"
proof (induction "is" arbitrary: acc)
  case Nil
  then show ?case by simp
next
  case (Cons i rest)
  then show ?case
    by (auto split: sum.splits dest: gather_row_error np_vstack_error)
qed

lemma neighbor_aggregator_error:
  "neighbor_aggregator y indx N = Inl e \<Longrightarrow> e = IndexError \<or> e = ValueError"
  by (auto simp: neighbor_aggregator_def split: sum.splits
      dest: gather_row_error aggregate_loop_error)

lemma np_quantile_axis1_error:
  "np_quantile_axis1 a q = Inl e \<Longrightarrow> e = ValueError \<or> e = AxisError \<or> e = IndexError"
  by (auto simp: np_quantile_axis1_def split: if_splits ndarray.splits)

text \<open>
  Whatever the input, the only failures of the filter are the three library exceptions;
  none of the failures named by the specification is ever raised.
\<close>

lemma nnqf_filter_error:
  assumes "nnqf_filter ar X y k q w p = Inl e"
  shows "e = ValueError \<or> e = IndexError \<or> e = AxisError"
  using assms
  by (auto simp: nnqf_filter_def Let_def split: sum.splits
      dest: kneighbors_error neighbor_aggregator_error np_quantile_axis1_error)

section \<open>Errors raised for invalid inputs\<close>

lemma length_x_input_example: "length x_input_example = 10"
  by (simp add: x_input_example_def)

lemma nnqf_filter_kneighbors_error:
  "kneighbors (feature_weighter ar X w) k p = Inl e \<Longrightarrow> nnqf_filter ar X y k q w p = Inl e"
  by (simp add: nnqf_filter_def)

text \<open>
  C7, as stated, fails.  For the ten rows of the example and eleven neighbours the call
  does not raise \<open>InvalidK\<close>: the variance weighting of lines 80 to 82 is computed first,
  and the neighbour search then raises its own \<open>ValueError\<close>.
\<close>

theorem invalid_k_counterexample:
  "(\<forall>ar. nnqf_filter ar x_input_example y_output_example 11 (1 / 2) True 2 = Inl ValueError)
   \<and> (\<forall>ar. nnqf_filter ar x_input_example y_output_example 11 (1 / 2) True 2 \<noteq> Inl InvalidK)"
proof -
  have "kneighbors (feature_weighter ar x_input_example True) 11 2 = Inl ValueError" for ar
    by (rule kneighbors_invalid_k) (simp add: length_x_input_example)
  then show ?thesis
    by (simp add: nnqf_filter_kneighbors_error)
qed

text \<open>
  C7, amended.  Whenever the number of neighbours is below one or above the number of
  rows, the filter raises \<open>ValueError\<close>, the generic exception of the neighbour search,
  and returns no result.
\<close>

theorem invalid_k_raises_ValueError:
  assumes "num_neighbors < 1 \<or> int (length x_input) < num_neighbors"
  shows "nnqf_filter ar x_input y_output num_neighbors q_quantile var_weighting minkowski_dist
         = Inl ValueError"
proof -
  have "kneighbors (feature_weighter ar x_input var_weighting) num_neighbors minkowski_dist
        = Inl ValueError"
    by (rule kneighbors_invalid_k) (use assms in simp)
  then show ?thesis
    by (rule nnqf_filter_kneighbors_error)
qed

theorem invalid_k_raises_ValueError_witness:
  "((0 :: int) < 1 \<or> int (length [[1, 2], [3, 5 :: real]]) < 0)
   \<and> (\<forall>ar. nnqf_filter ar [[1, 2], [3, 5]] [7, 8] 0 (1 / 2) True 2 = Inl ValueError)"
  using invalid_k_raises_ValueError [of 0 "[[1, 2], [3, 5]]" _ "[7, 8]" "1 / 2" True 2] by simp

lemma finite_value_PInf: "finite_value (np_multiply ar PInf x) = None"
  by simp

lemma those_row_nonfinite:
  assumes "j < length ws" "j < length r" "ws ! j = PInf"
  shows "those (map finite_value (map2 (np_multiply ar) ws r)) = None"
proof -
  have "map2 (np_multiply ar) ws r ! j = np_multiply ar PInf (r ! j)"
    using assms by simp
  moreover have "j < length (map2 (np_multiply ar) ws r)"
    using assms by simp
  ultimately have "np_multiply ar PInf (r ! j) \<in> set (map2 (np_multiply ar) ws r)"
    by (metis nth_mem)
  then have "finite_value (np_multiply ar PInf (r ! j))
             \<in> set (map finite_value (map2 (np_multiply ar) ws r))"
    by (simp only: set_map image_eqI [OF refl])
  then have "None \<in> set (map finite_value (map2 (np_multiply ar) ws r))"
    by (simp only: finite_value_PInf)
  then show ?thesis
    by (simp only: those_None_iff)
qed

lemma check_array_zero_variance:
  assumes "is_matrix X N S" "0 < N" "j < S" "np_var ar (column X j) = Fin 0"
  shows "check_array (feature_weighter ar X True) = Inl ValueError"
proof -
  obtain r rest where X: "X = r # rest"
    using assms(1,2) by (cases X) (auto simp: is_matrix_def)
  have S: "ncols X = S" "length r = S"
    using assms(1) X by (simp_all add: is_matrix_def ncols_def)
  let ?ws = "map (np_reciprocal ar) (np_var_axis0 ar X)"
  have "j < length ?ws" "?ws ! j = PInf"
    using assms(3,4) S by (simp_all add: np_var_axis0_def)
  then have "those (map finite_value (map2 (np_multiply ar) ?ws r)) = None"
    using those_row_nonfinite [of j ?ws r] assms(3) S by simp
  then have "None \<in> set (map (\<lambda>r. those (map finite_value r)) (feature_weighter ar X True))"
    unfolding feature_weighter_def X by (simp del: those.simps)
  then have "those (map (\<lambda>r. those (map finite_value r)) (feature_weighter ar X True)) = None"
    by (simp only: those_None_iff)
  then show ?thesis
    by (simp add: check_array_def)
qed

lemma nnqf_filter_zero_variance:
  assumes "is_matrix X N S" "0 < N" "j < S" "np_var ar (column X j) = Fin 0"
  shows "nnqf_filter ar X y k q True p = Inl ValueError"
proof -
  have "check_array (feature_weighter ar X True) = Inl ValueError"
    using assms by (rule check_array_zero_variance)
  then have "kneighbors (feature_weighter ar X True) k p = Inl ValueError"
    by (simp add: kneighbors_def)
  then show ?thesis
    by (rule nnqf_filter_kneighbors_error)
qed

text \<open>
  C9, as stated, fails.  With variance weighting and a constant second column the call
  never raises \<open>DegenerateFeature\<close>, whatever the rounding.  For the rows \<open>[0, 1]\<close> and
  \<open>[2, 1]\<close> nothing is rounded: the variance of the column of ones is zero, the division
  by zero yields non-finite entries without an exception, and the neighbour search
  rejects them with \<open>ValueError\<close>.
\<close>

theorem zero_variance_counterexample:
  "(\<forall>ar. nnqf_filter ar [[0, 1], [2, 1]] [10, 20] 2 (1 / 2) True 2 \<noteq> Inl DegenerateFeature)
   \<and> nnqf_filter exact_arith [[0, 1], [2, 1]] [10, 20] 2 (1 / 2) True 2 = Inl ValueError"
proof -
  have "nnqf_filter ar [[0, 1], [2, 1]] [10, 20] 2 (1 / 2) True 2 \<noteq> Inl DegenerateFeature"
    for ar
    using nnqf_filter_error [of ar "[[0, 1], [2, 1]]" "[10, 20]" 2 "1 / 2" True 2
        DegenerateFeature]
    by auto
  moreover have "is_matrix [[0, 1], [2, 1 :: real]] 2 2"
    by (simp add: is_matrix_def)
  moreover have "np_var exact_arith (column [[0, 1], [2, 1]] 1) = Fin 0"
    by (simp add: exact_arith_def variance_def mean_def column_def)
  ultimately show ?thesis
    using nnqf_filter_zero_variance [of "[[0, 1], [2, 1]]" 2 2 1 exact_arith]
    by simp
qed

text \<open>
  C9, amended.  Whenever variance weighting is enabled and \<^verbatim>\<open>np.var\<close> returns exactly
  zero for some column of a matrix with at least one row, lines 81 and 82 raise
  nothing: every entry of that column becomes an infinity of the sign of the entry, or
  NaN for the entry zero.  The filter then raises \<open>ValueError\<close> (from the finiteness
  check of the neighbour search) and returns no result.
\<close>

theorem zero_variance_raises_ValueError:
  assumes "is_matrix x_input N S" and "0 < N" and "j < S"
    and "np_var ar (column x_input j) = Fin 0"
  shows "(\<forall>i<N. feature_weighter ar x_input True ! i ! j
                 = (if 0 < x_input ! i ! j then PInf
                    else if x_input ! i ! j < 0 then NInf else NaN))
       \<and> nnqf_filter ar x_input y_output num_neighbors q_quantile True minkowski_dist
         = Inl ValueError"
proof
  show "\<forall>i<N. feature_weighter ar x_input True ! i ! j
                = (if 0 < x_input ! i ! j then PInf
                   else if x_input ! i ! j < 0 then NInf else NaN)"
    using feature_weighter_entry [OF assms(1) _ assms(3), of _ ar] assms(4) by simp
  have "check_array (feature_weighter ar x_input True) = Inl ValueError"
    using assms by (rule check_array_zero_variance)
  then have "kneighbors (feature_weighter ar x_input True) num_neighbors minkowski_dist
             = Inl ValueError"
    by (simp add: kneighbors_def)
  then show "nnqf_filter ar x_input y_output num_neighbors q_quantile True minkowski_dist
             = Inl ValueError"
    by (rule nnqf_filter_kneighbors_error)
qed

theorem zero_variance_raises_ValueError_witness:
  "is_matrix [[1, 3], [3, 3 :: real]] 2 2 \<and> (0 :: nat) < 2 \<and> (1 :: nat) < 2
   \<and> np_var exact_arith (column [[1, 3], [3, 3]] 1) = Fin 0
   \<and> feature_weighter exact_arith [[1, 3], [3, 3]] True ! 0 ! 1 = PInf
   \<and> feature_weighter exact_arith [[1, 3], [3, 3]] True ! 1 ! 1 = PInf
   \<and> nnqf_filter exact_arith [[1, 3], [3, 3]] [10, 20] 1 (1 / 2) True 2 = Inl ValueError"
proof -
  have m: "is_matrix [[1, 3], [3, 3 :: real]] 2 2"
    by (simp add: is_matrix_def)
  have v: "np_var exact_arith (column [[1, 3], [3, 3]] 1) = Fin 0"
    by (simp add: exact_arith_def variance_def mean_def column_def)
  note t = zero_variance_raises_ValueError [OF m _ _ v, of "[10, 20]" 1 "1 / 2" 2]
  have "feature_weighter exact_arith [[1, 3], [3, 3]] True ! 0 ! 1 = PInf"
    using t [THEN conjunct1, rule_format, of 0] by simp
  moreover have "feature_weighter exact_arith [[1, 3], [3, 3]] True ! 1 ! 1 = PInf"
    using t [THEN conjunct1, rule_format, of 1] by simp
  ultimately show ?thesis
    using m v t by simp
qed

section \<open>The linear quantile\<close>

lemma quantile_linear_interp:
  "quantile_linear xs q = interp (sort xs) (real (length xs - 1) * q)"
  by (simp add: quantile_linear_def interp_def Let_def)

lemma floor_index:
  assumes "0 \<le> v" "v \<le> real n"
  shows "nat \<lfloor>v\<rfloor> \<le> n" "real (nat \<lfloor>v\<rfloor>) \<le> v" "v - real (nat \<lfloor>v\<rfloor>) < 1"
proof -
  have "\<lfloor>v\<rfloor> \<le> int n"
    using assms(2) by (simp add: floor_le_iff)
  then show "nat \<lfloor>v\<rfloor> \<le> n" by simp
  have "0 \<le> \<lfloor>v\<rfloor>" using assms(1) by simp
  then have r: "real (nat \<lfloor>v\<rfloor>) = of_int \<lfloor>v\<rfloor>" by simp
  show "real (nat \<lfloor>v\<rfloor>) \<le> v" unfolding r by simp
  show "v - real (nat \<lfloor>v\<rfloor>) < 1" unfolding r by linarith
qed

lemma interp_between:
  assumes "sorted s" "s \<noteq> []" "0 \<le> v" "v \<le> real (length s - 1)"
  shows "s ! nat \<lfloor>v\<rfloor> \<le> interp s v"
    and "interp s v \<le> s ! min (nat \<lfloor>v\<rfloor> + 1) (length s - 1)"
proof -
  let ?lo = "nat \<lfloor>v\<rfloor>"
  let ?hi = "min (?lo + 1) (length s - 1)"
  let ?g = "v - real ?lo"
  have lo: "?lo \<le> length s - 1" and g0: "0 \<le> ?g" and g1: "?g < 1"
    using floor_index [OF assms(3,4)] by simp_all
  have "?lo \<le> ?hi" using lo by simp
  moreover have "?hi < length s" using assms(2) by (cases s) simp_all
  ultimately have d: "0 \<le> s ! ?hi - s ! ?lo"
    using assms(1) by (simp add: sorted_nth_mono)
  have e: "interp s v = s ! ?lo + ?g * (s ! ?hi - s ! ?lo)"
    by (simp add: interp_def Let_def)
  show "s ! ?lo \<le> interp s v"
    unfolding e using g0 d by simp
  have "?g * (s ! ?hi - s ! ?lo) \<le> 1 * (s ! ?hi - s ! ?lo)"
    using g1 d by (intro mult_right_mono) simp_all
  then show "interp s v \<le> s ! ?hi"
    unfolding e by simp
qed

lemma interp_mono:
  assumes "sorted s" "s \<noteq> []" "0 \<le> v1" "v1 \<le> v2" "v2 \<le> real (length s - 1)"
  shows "interp s v1 \<le> interp s v2"
proof -
  let ?l1 = "nat \<lfloor>v1\<rfloor>" and ?l2 = "nat \<lfloor>v2\<rfloor>"
  have v2: "0 \<le> v2" and v1: "v1 \<le> real (length s - 1)"
    using assms by simp_all
  have l2: "?l2 \<le> length s - 1"
    using floor_index(1) [OF v2 assms(5)] .
  have "\<lfloor>v1\<rfloor> \<le> \<lfloor>v2\<rfloor>"
    using assms(4) by (rule floor_mono)
  then have le: "?l1 \<le> ?l2" by simp
  show ?thesis
  proof (cases "?l1 = ?l2")
    case True
    let ?hi = "min (?l2 + 1) (length s - 1)"
    have "?l2 \<le> ?hi" using l2 by simp
    moreover have "?hi < length s" using assms(2) by (cases s) simp_all
    ultimately have d: "0 \<le> s ! ?hi - s ! ?l2"
      using assms(1) by (simp add: sorted_nth_mono)
    have "(v1 - real ?l2) * (s ! ?hi - s ! ?l2) \<le> (v2 - real ?l2) * (s ! ?hi - s ! ?l2)"
      using assms(4) d by (intro mult_right_mono) simp_all
    then show ?thesis
      using True by (simp add: interp_def Let_def)
  next
    case False
    with le have lt: "?l1 + 1 \<le> ?l2" by simp
    let ?h1 = "min (?l1 + 1) (length s - 1)"
    have "?h1 \<le> ?l2" using lt by simp
    moreover have "?l2 < length s" using l2 assms(2) by (cases s) simp_all
    ultimately have "s ! ?h1 \<le> s ! ?l2"
      using assms(1) by (simp add: sorted_nth_mono)
    moreover have "interp s v1 \<le> s ! ?h1"
      using interp_between(2) [OF assms(1,2,3) v1] .
    moreover have "s ! ?l2 \<le> interp s v2"
      using interp_between(1) [OF assms(1,2) v2 assms(5)] .
    ultimately show ?thesis by linarith
  qed
qed

lemma virtual_index_range:
  assumes "0 \<le> q" "q \<le> 1"
  shows "0 \<le> real n * q" "real n * q \<le> real n"
  using assms by (simp_all add: mult_left_le)

lemma sorted_nth_0_Min:
  assumes "sorted s" "s \<noteq> []"
  shows "s ! 0 = Min (set s)"
proof (rule Min_eqI [symmetric])
  show "finite (set s)" by simp
  show "s ! 0 \<in> set s" using assms(2) by simp
  fix y assume "y \<in> set s"
  then obtain i where "i < length s" "s ! i = y"
    by (auto simp: in_set_conv_nth)
  then show "s ! 0 \<le> y"
    using sorted_nth_mono [OF assms(1), of 0 i] by simp
qed

lemma sorted_nth_last_Max:
  assumes "sorted s" "s \<noteq> []"
  shows "s ! (length s - 1) = Max (set s)"
proof (rule Max_eqI [symmetric])
  show "finite (set s)" by simp
  show "s ! (length s - 1) \<in> set s" using assms(2) by simp
  fix y assume "y \<in> set s"
  then obtain i where "i < length s" "s ! i = y"
    by (auto simp: in_set_conv_nth)
  then show "y \<le> s ! (length s - 1)"
    using sorted_nth_mono [OF assms(1), of i "length s - 1"] by auto
qed

lemma sort_nonempty: "xs \<noteq> [] \<Longrightarrow> sort xs \<noteq> []"
  by (metis length_0_conv length_sort)

lemma quantile_linear_bounds:
  assumes "xs \<noteq> []" "0 \<le> q" "q \<le> 1"
  shows "Min (set xs) \<le> quantile_linear xs q" and "quantile_linear xs q \<le> Max (set xs)"
proof -
  let ?s = "sort xs" and ?v = "real (length xs - 1) * q"
  have s: "sorted ?s" "?s \<noteq> []" using assms(1) by (simp_all add: sort_nonempty)
  have v: "0 \<le> ?v" "?v \<le> real (length ?s - 1)"
    using virtual_index_range [OF assms(2,3), of "length xs - 1"] by simp_all
  have lo: "nat \<lfloor>?v\<rfloor> < length ?s"
    using floor_index(1) [OF v] s(2) by (cases ?s) simp_all
  have hi: "min (nat \<lfloor>?v\<rfloor> + 1) (length ?s - 1) < length ?s"
    using s(2) by (cases ?s) simp_all
  have "Min (set xs) \<le> ?s ! nat \<lfloor>?v\<rfloor>"
    using nth_mem [OF lo] by simp
  then show "Min (set xs) \<le> quantile_linear xs q"
    using interp_between(1) [OF s v] by (simp add: quantile_linear_interp)
  have "?s ! min (nat \<lfloor>?v\<rfloor> + 1) (length ?s - 1) \<le> Max (set xs)"
    using nth_mem [OF hi] by simp
  then show "quantile_linear xs q \<le> Max (set xs)"
    using interp_between(2) [OF s v] by (simp add: quantile_linear_interp)
qed

lemma quantile_linear_0:
  assumes "xs \<noteq> []"
  shows "quantile_linear xs 0 = Min (set xs)"
  using sorted_nth_0_Min [of "sort xs"] sort_nonempty [OF assms]
  by (simp add: quantile_linear_def)

lemma quantile_linear_1:
  assumes "xs \<noteq> []"
  shows "quantile_linear xs 1 = Max (set xs)"
  using sorted_nth_last_Max [of "sort xs"] sort_nonempty [OF assms]
  by (simp add: quantile_linear_def)

lemma quantile_linear_mono:
  assumes "xs \<noteq> []" "0 \<le> q1" "q1 \<le> q2" "q2 \<le> 1"
  shows "quantile_linear xs q1 \<le> quantile_linear xs q2"
proof -
  let ?n = "real (length xs - 1)"
  have s: "sorted (sort xs)" "sort xs \<noteq> []" using assms(1) by (simp_all add: sort_nonempty)
  have "0 \<le> ?n * q1" using assms(2) by simp
  moreover have "?n * q1 \<le> ?n * q2" using assms(3) by (simp add: mult_left_mono)
  moreover have "?n * q2 \<le> real (length (sort xs) - 1)"
    using assms(4) by (simp add: mult_left_le)
  ultimately show ?thesis
    using interp_mono [OF s] by (simp add: quantile_linear_interp)
qed

lemma quantile_linear_single: "quantile_linear [x] q = x"
  by (simp add: quantile_linear_def)

section \<open>The aggregation loop\<close>

lemma gather_row_ok:
  assumes "i < length indx" "list_all (\<lambda>j. j < length y) (indx ! i)"
  shows "gather_row y indx i = Inr (gathered y indx i)"
  using assms by (simp add: gather_row_def index_row_def np_take_def gathered_def)


lemma np_vstack_ok:
  assumes "row_len acc c" "length v = c"
  shows "np_vstack acc v = Inr (stack_rows acc [v])" "row_len (stack_rows acc [v]) c"
  using assms by (cases acc; simp)+

lemma stack_rows_Cons: "stack_rows (stack_rows acc [v]) vs = stack_rows acc (v # vs)"
  by (cases acc; cases vs; simp)

lemma aggregate_loop_ok:
  assumes "\<forall>i\<in>set is. i < length indx \<and> length (indx ! i) = c
            \<and> list_all (\<lambda>j. j < length y) (indx ! i)"
    and "row_len acc c"
  shows "aggregate_loop y indx is acc = Inr (stack_rows acc (map (gathered y indx) is))"
  using assms
proof (induction "is" arbitrary: acc)
  case Nil
  then show ?case by simp
next
  case (Cons i rest)
  have g: "gather_row y indx i = Inr (gathered y indx i)"
    using Cons.prems(1) by (simp add: gather_row_ok)
  have "length (gathered y indx i) = c"
    using Cons.prems(1) by (simp add: gathered_def)
  then have v: "np_vstack acc (gathered y indx i) = Inr (stack_rows acc [gathered y indx i])"
    and r: "row_len (stack_rows acc [gathered y indx i]) c"
    using np_vstack_ok [OF Cons.prems(2)] by simp_all
  have "aggregate_loop y indx rest (stack_rows acc [gathered y indx i])
        = Inr (stack_rows (stack_rows acc [gathered y indx i]) (map (gathered y indx) rest))"
    using Cons.prems(1) r by (intro Cons.IH) simp_all
  then show ?case
    by (simp add: g v stack_rows_Cons)
qed


lemma upt_from_1: "0 < N \<Longrightarrow> [0..<N] = 0 # [1..<N]"
  by (simp add: upt_conv_Cons)

lemma neighbor_aggregator_ok:
  assumes "length indx = N" "0 < N"
    and "\<forall>i<N. length (indx ! i) = c \<and> list_all (\<lambda>j. j < length y) (indx ! i)"
  shows "neighbor_aggregator y indx N
         = Inr (stack_rows (Arr1 (gathered y indx 0)) (map (gathered y indx) [1..<N]))"
proof -
  have g: "gather_row y indx 0 = Inr (gathered y indx 0)"
    using assms by (simp add: gather_row_ok)
  have "row_len (Arr1 (gathered y indx 0)) c"
    using assms by (simp add: gathered_def)
  then have "aggregate_loop y indx [1..<N] (Arr1 (gathered y indx 0))
        = Inr (stack_rows (Arr1 (gathered y indx 0)) (map (gathered y indx) [1..<N]))"
    using assms by (intro aggregate_loop_ok [where c = c]) simp_all
  then show ?thesis
    by (simp add: neighbor_aggregator_def g)
qed

text \<open>
  With at least two rows the aggregation yields the \<open>N\<close> by \<open>k\<close> neighbour output table:
  entry \<open>(i, j)\<close> is \<open>y ! (indx ! i ! j)\<close> for every row, row 0 included.
\<close>

lemma neighbor_aggregator_table:
  assumes "length indx = N" "2 \<le> N"
    and "\<forall>i<N. length (indx ! i) = c \<and> list_all (\<lambda>j. j < length y) (indx ! i)"
  shows "neighbor_aggregator y indx N = Inr (Arr2 (map (gathered y indx) [0..<N]))"
proof -
  have "[1..<N] = 1 # [2..<N]"
    using assms(2) upt_conv_Cons [of 1 N] by (simp add: numeral_2_eq_2)
  then have "stack_rows (Arr1 (gathered y indx 0)) (map (gathered y indx) [1..<N])
             = Arr2 (gathered y indx 0 # map (gathered y indx) [1..<N])"
    by simp
  also have "\<dots> = Arr2 (map (gathered y indx) [0..<N])"
    using assms(2) upt_from_1 [of N] by simp
  finally show ?thesis
    using neighbor_aggregator_ok [OF assms(1) _ assms(3)] assms(2) by simp
qed







section \<open>The filter when the neighbour search succeeds\<close>

lemma length_kneighbors_row:
  "k \<le> length X \<Longrightarrow> length (kneighbors_row X k p i) = k"
  by (simp add: kneighbors_row_def)

lemma set_kneighbors_row: "j \<in> set (kneighbors_row X k p i) \<Longrightarrow> j < length X"
proof -
  assume "j \<in> set (kneighbors_row X k p i)"
  then have "j \<in> set (sort_key (\<lambda>j. minkowski_rdist p (X ! i) (X ! j)) [0..<length X])"
    unfolding kneighbors_row_def by (rule in_set_takeD)
  then show ?thesis by simp
qed

lemma kneighbors_valid:
  assumes "check_array X = Inr Xr" "1 \<le> k" "k \<le> int (length X)" "0 < p"
  shows "kneighbors X k p = Inr (map (kneighbors_row Xr (nat k) (nat p)) [0..<length X])"
  using assms check_array_length [OF assms(1)] by (simp add: kneighbors_def)

lemma list_all_less: "(\<And>j. j \<in> set xs \<Longrightarrow> j < n) \<Longrightarrow> list_all (\<lambda>j. j < n) xs"
  by (simp add: list_all_iff)

lemma no_empty_row: "(\<And>i. f i \<noteq> []) \<Longrightarrow> \<not> list_ex (\<lambda>r. r = []) (map f xs)"
  by (induction xs) simp_all

text \<open>
  The filter on at least two rows, stage by stage, when the weighted matrix passes the
  finiteness check.
\<close>

lemma nnqf_filter_two_or_more:
  assumes chk: "check_array (feature_weighter ar X w) = Inr Xw"
    and k: "1 \<le> k" "k \<le> int (length X)" and p: "0 < p"
    and q: "0 \<le> q" "q \<le> 1"
    and y: "length X \<le> length y" and N: "2 \<le> length X"
  shows "nnqf_filter ar X y k q w p
         = Inr (map (\<lambda>i. quantile_linear (neighbor_outputs Xw y (nat k) (nat p) i) q)
                  [0..<length X])"
proof -
  let ?N = "length X"
  let ?indx = "map (kneighbors_row Xw (nat k) (nat p)) [0..<?N]"
  have len: "length Xw = ?N"
    using check_array_length [OF chk] by simp
  have kn: "kneighbors (feature_weighter ar X w) k p = Inr ?indx"
    using kneighbors_valid [OF chk] k p by simp
  have rows: "\<forall>i<?N. length (?indx ! i) = nat k
                     \<and> list_all (\<lambda>j. j < length y) (?indx ! i)"
  proof (intro allI impI conjI)
    fix i assume i: "i < ?N"
    show "length (?indx ! i) = nat k"
      using i k len by (simp add: length_kneighbors_row)
    show "list_all (\<lambda>j. j < length y) (?indx ! i)"
    proof (rule list_all_less)
      fix j assume "j \<in> set (?indx ! i)"
      then have "j < length Xw" using i by (simp add: set_kneighbors_row)
      then show "j < length y" using len y by simp
    qed
  qed
  have g: "map (gathered y ?indx) [0..<?N] = map (neighbor_outputs Xw y (nat k) (nat p)) [0..<?N]"
    by (simp add: gathered_def neighbor_outputs_def)
  have agg: "neighbor_aggregator y ?indx ?N
             = Inr (Arr2 (map (neighbor_outputs Xw y (nat k) (nat p)) [0..<?N]))"
    using neighbor_aggregator_table [OF _ N rows] g by simp
  have "neighbor_outputs Xw y (nat k) (nat p) i \<noteq> []" for i
  proof -
    have "length (neighbor_outputs Xw y (nat k) (nat p) i) = nat k"
      using k len by (simp add: neighbor_outputs_def length_kneighbors_row)
    then show ?thesis using k by auto
  qed
  then have ne: "\<not> list_ex (\<lambda>r. r = []) (map (neighbor_outputs Xw y (nat k) (nat p)) [0..<?N])"
    by (rule no_empty_row)
  show ?thesis
    using q ne by (simp add: nnqf_filter_def kn agg np_quantile_axis1_def comp_def)
qed


section \<open>The nearest neighbour of a sample\<close>

lemma minkowski_rdist_nonneg: "0 \<le> minkowski_rdist p a b"
  unfolding minkowski_rdist_def by (rule sum_list_nonneg) auto

lemma minkowski_rdist_self: "0 < p \<Longrightarrow> minkowski_rdist p a a = 0"
  unfolding minkowski_rdist_def by (induction a) simp_all

lemma minkowski_rdist_Cons:
  "minkowski_rdist p (u # a) (v # b) = \<bar>u - v\<bar> ^ p + minkowski_rdist p a b"
  by (simp add: minkowski_rdist_def)

lemma minkowski_rdist_pos:
  assumes "length a = length b" "a \<noteq> b"
  shows "0 < minkowski_rdist p a b"
  using assms
proof (induction a b rule: list_induct2)
  case Nil
  then show ?case by simp
next
  case (Cons u a v b)
  show ?case
  proof (cases "u = v")
    case True
    with Cons.prems have "a \<noteq> b" by simp
    then have "0 < minkowski_rdist p a b" by (rule Cons.IH)
    moreover have "(0::real) \<le> \<bar>u - v\<bar> ^ p" by simp
    ultimately show ?thesis by (simp only: minkowski_rdist_Cons add_nonneg_pos)
  next
    case False
    then have "0 < \<bar>u - v\<bar> ^ p" by simp
    moreover have "0 \<le> minkowski_rdist p a b" by (rule minkowski_rdist_nonneg)
    ultimately show ?thesis by (simp add: minkowski_rdist_Cons add_pos_nonneg)
  qed
qed

lemma minkowski_distance_le_iff:
  "0 < p \<Longrightarrow> minkowski_distance p a b \<le> minkowski_distance p a c
     \<longleftrightarrow> minkowski_rdist p a b \<le> minkowski_rdist p a c"
  by (simp add: minkowski_distance_def)

lemma sort_key_strict_min_hd:
  assumes "i \<in> set xs" "\<And>j. j \<in> set xs \<Longrightarrow> j \<noteq> i \<Longrightarrow> f i < (f j :: real)"
  shows "hd (sort_key f xs) = i"
proof (rule ccontr)
  let ?s = "sort_key f xs"
  assume ne: "hd ?s \<noteq> i"
  have nonempty: "?s \<noteq> []"
    using assms(1) by (metis empty_iff empty_set set_sort)
  then have h: "hd ?s \<in> set xs"
    by (metis hd_in_set set_sort)
  have lt: "f i < f (hd ?s)"
    using assms(2) [OF h ne] .
  have "i \<in> set ?s" using assms(1) by simp
  then obtain m where m: "m < length ?s" "?s ! m = i"
    by (metis in_set_conv_nth)
  have "sorted (map f ?s)" by (rule sorted_sort_key)
  then have "map f ?s ! 0 \<le> map f ?s ! m"
    using m(1) by (intro sorted_nth_mono) simp_all
  moreover have "0 < length ?s" using nonempty by (cases ?s) simp_all
  ultimately have "f (?s ! 0) \<le> f (?s ! m)"
    using m(1) by (simp only: nth_map)
  then have "f (hd ?s) \<le> f i"
    using m(2) hd_conv_nth [OF nonempty] by simp
  with lt show False by simp
qed

text \<open>
  Self-inclusion with exact distances: among pairwise distinct rows every sample is its
  own nearest neighbour, at distance zero.
\<close>

lemma kneighbors_row_self_first:
  assumes "distinct X" "list_all (\<lambda>r. length r = S) X" "i < length X" "0 < k" "0 < p"
  shows "\<exists>rest. kneighbors_row X k p i = i # rest"
proof -
  let ?f = "\<lambda>j. minkowski_rdist p (X ! i) (X ! j)"
  let ?s = "sort_key ?f [0..<length X]"
  have self: "?f i = 0"
    using assms(5) by (rule minkowski_rdist_self)
  have lt: "?f i < ?f j" if "j \<in> set [0..<length X]" "j \<noteq> i" for j
  proof -
    have j: "j < length X" using that(1) by simp
    have "X ! i \<noteq> X ! j"
      using assms(1,3) j that(2) by (simp add: nth_eq_iff_index_eq)
    moreover have "length (X ! i) = length (X ! j)"
      using assms(2,3) j by (simp add: list_all_length)
    ultimately have "0 < ?f j" by (rule minkowski_rdist_pos [rotated])
    then show ?thesis using self by simp
  qed
  have "i \<in> set [0..<length X]" using assms(3) by simp
  then have hd: "hd ?s = i"
    using lt by (rule sort_key_strict_min_hd)
  have "?s \<noteq> []"
    using assms(3) by (metis length_0_conv length_sort length_upt less_nat_zero_code diff_zero)
  then obtain x rest where s: "?s = x # rest" by (cases ?s) auto
  with hd have "x = i" by simp
  then have "take k ?s = i # take (k - 1) rest"
    using s assms(4) by (simp add: take_Cons')
  then show ?thesis
    unfolding kneighbors_row_def by blast
qed

lemma kneighbors_row_nearest_is_self:
  assumes "distinct X" "list_all (\<lambda>r. length r = S) X" "i < length X" "0 < p"
  shows "kneighbors_row X (Suc 0) p i = [i]"
proof -
  obtain rest where r: "kneighbors_row X (Suc 0) p i = i # rest"
    using kneighbors_row_self_first [OF assms(1,2,3) _ assms(4), of "Suc 0"] by auto
  have "length (kneighbors_row X (Suc 0) p i) = Suc 0"
    using assms(3) by (intro length_kneighbors_row) simp
  with r show ?thesis by simp
qed

section \<open>At least two rows, exact distances and interpolation\<close>

text \<open>
  When the weighted matrix \<open>Xw\<close> passes the finiteness check and there are at least two
  rows, the model returns a vector of length \<open>N\<close>; every entry lies between the minimum
  and the maximum of the neighbour outputs of its sample (and equals them for \<open>q = 0\<close>
  and \<open>q = 1\<close>); the entries are monotone in \<open>q\<close>; and with one neighbour and pairwise
  distinct rows of \<open>Xw\<close> the result is \<open>y_output\<close> itself.  These results are about the
  distances and the interpolation in exact arithmetic.
\<close>

lemma nnqf_filter_valid_result:
  assumes "check_array (feature_weighter ar X w) = Inr Xw"
    and "valid_input X y k q w p" "2 \<le> length X"
  shows "nnqf_filter ar X y k q w p
         = Inr (map (\<lambda>i. quantile_linear (neighbor_outputs Xw y (nat k) (nat p) i) q)
                  [0..<length X])"
  using assms by (intro nnqf_filter_two_or_more) (simp_all add: valid_input_def)

lemma neighbor_outputs_nonempty:
  assumes "1 \<le> k" "k \<le> int (length Xw)"
  shows "neighbor_outputs Xw y (nat k) p i \<noteq> []"
proof -
  have "length (neighbor_outputs Xw y (nat k) p i) = nat k"
    using assms by (simp add: neighbor_outputs_def length_kneighbors_row)
  then show ?thesis using assms(1) by auto
qed

lemma nnqf_filter_length_two_or_more:
  assumes "check_array (feature_weighter ar X w) = Inr Xw"
    and "valid_input X y k q w p" "2 \<le> length X"
  shows "\<exists>out. nnqf_filter ar X y k q w p = Inr out \<and> length out = length X"
  using nnqf_filter_valid_result [OF assms] by simp

lemma nnqf_filter_bounds_two_or_more:
  assumes "check_array (feature_weighter ar X w) = Inr Xw"
    and "valid_input X y k q w p" "2 \<le> length X"
  shows "\<exists>out. nnqf_filter ar X y k q w p = Inr out \<and> length out = length X \<and>
           (\<forall>i<length X.
              Min (set (neighbor_outputs Xw y (nat k) (nat p) i)) \<le> out ! i
            \<and> out ! i \<le> Max (set (neighbor_outputs Xw y (nat k) (nat p) i))
            \<and> (q = 0 \<longrightarrow> out ! i = Min (set (neighbor_outputs Xw y (nat k) (nat p) i)))
            \<and> (q = 1 \<longrightarrow> out ! i = Max (set (neighbor_outputs Xw y (nat k) (nat p) i))))"
proof -
  let ?row = "neighbor_outputs Xw y (nat k) (nat p)"
  have "length Xw = length X"
    using check_array_length [OF assms(1)] by simp
  then have k: "1 \<le> k" "k \<le> int (length Xw)" and q: "0 \<le> q" "q \<le> 1"
    using assms(2) by (simp_all add: valid_input_def)
  have ne: "?row i \<noteq> []" for i
    using k by (rule neighbor_outputs_nonempty)
  have "Min (set (?row i)) \<le> quantile_linear (?row i) q
      \<and> quantile_linear (?row i) q \<le> Max (set (?row i))
      \<and> (q = 0 \<longrightarrow> quantile_linear (?row i) q = Min (set (?row i)))
      \<and> (q = 1 \<longrightarrow> quantile_linear (?row i) q = Max (set (?row i)))" for i
    using quantile_linear_bounds [OF ne q] quantile_linear_0 [OF ne] quantile_linear_1 [OF ne]
    by blast
  then show ?thesis
    using nnqf_filter_valid_result [OF assms] by simp
qed

lemma nnqf_filter_monotone_two_or_more:
  assumes "check_array (feature_weighter ar X w) = Inr Xw"
    and "valid_input X y k q1 w p" "valid_input X y k q2 w p" "q1 \<le> q2" "2 \<le> length X"
  shows "\<exists>out1 out2. nnqf_filter ar X y k q1 w p = Inr out1
           \<and> nnqf_filter ar X y k q2 w p = Inr out2
           \<and> length out1 = length X \<and> length out2 = length X
           \<and> (\<forall>i<length X. out1 ! i \<le> out2 ! i)"
proof -
  let ?row = "neighbor_outputs Xw y (nat k) (nat p)"
  have "length Xw = length X"
    using check_array_length [OF assms(1)] by simp
  then have k: "1 \<le> k" "k \<le> int (length Xw)" and q: "0 \<le> q1" "q2 \<le> 1"
    using assms(2,3) by (simp_all add: valid_input_def)
  have ne: "?row i \<noteq> []" for i
    using k by (rule neighbor_outputs_nonempty)
  have "quantile_linear (?row i) q1 \<le> quantile_linear (?row i) q2" for i
    using quantile_linear_mono [OF ne q(1) assms(4) q(2)] .
  then show ?thesis
    using nnqf_filter_valid_result [OF assms(1,2,5)] nnqf_filter_valid_result [OF assms(1,3,5)]
    by simp
qed

lemma checked_rows:
  assumes "check_array (feature_weighter ar X w) = Inr Xw" "valid_features X w"
  shows "list_all (\<lambda>r. length r = ncols X) Xw"
proof -
  have "is_matrix X (length X) (ncols X)"
    using assms(2) by (simp add: valid_features_def is_matrix_def)
  then have "is_matrix (feature_weighter ar X w) (length X) (ncols X)"
    by (rule feature_weighter_shape)
  then have "list_all (\<lambda>r. length r = ncols X) (feature_weighter ar X w)"
    by (simp add: is_matrix_def)
  with assms(1) show ?thesis
    by (rule check_array_row_lengths)
qed

lemma nnqf_filter_identity_two_or_more:
  assumes "check_array (feature_weighter ar X w) = Inr Xw"
    and "valid_input X y 1 q w p" "distinct Xw" "2 \<le> length X"
  shows "nnqf_filter ar X y 1 q w p = Inr y"
proof -
  have rows: "list_all (\<lambda>r. length r = ncols X) Xw"
    using checked_rows [OF assms(1)] assms(2) by (simp add: valid_input_def)
  have len: "length Xw = length X"
    using check_array_length [OF assms(1)] by simp
  have p: "0 < nat p" and y: "length y = length X"
    using assms(2) by (simp_all add: valid_input_def)
  have "quantile_linear (neighbor_outputs Xw y (nat 1) (nat p) i) q = y ! i"
    if "i < length X" for i
  proof -
    have "kneighbors_row Xw (Suc 0) (nat p) i = [i]"
      using assms(3) rows _ p by (rule kneighbors_row_nearest_is_self) (use that len in simp)
    then show ?thesis
      by (simp add: neighbor_outputs_def quantile_linear_single)
  qed
  then have "map (\<lambda>i. quantile_linear (neighbor_outputs Xw y (nat 1) (nat p) i) q) [0..<length X]
             = map (\<lambda>i. y ! i) [0..<length X]"
    by (intro map_cong) simp_all
  also have "\<dots> = y"
    using y map_nth [of y] by simp
  finally show ?thesis
    using nnqf_filter_valid_result [OF assms(1,2,4)] by simp
qed

section \<open>An output vector of the wrong length\<close>






section \<open>Valid inputs with a single row\<close>

text \<open>
  C1.  The output should have one entry per row of \<open>x_input\<close> on every valid input.  On
  the valid input with the single row \<open>[1]\<close> the filter returns no vector at all: it
  raises \<open>AxisError\<close>.
\<close>

theorem shape_invariant_fails_single_row:
  "valid_input [[1]] [5] 1 (1 / 2) False 2
   \<and> nnqf_filter ar [[1]] [5] 1 (1 / 2) False 2 = Inl AxisError"
  by (simp add: valid_input_def valid_features_def ncols_def nnqf_filter_def
      feature_weighter_def kneighbors_def check_array_def kneighbors_row_def
      neighbor_aggregator_def gather_row_def index_row_def np_take_def np_quantile_axis1_def)

text \<open>
  C2.  Every output entry should lie between the minimum and the maximum of the
  neighbour outputs of its sample, and equal them for \<open>q = 0\<close> and \<open>q = 1\<close>.  On a valid
  single-row input the neighbour outputs of sample 0 are \<open>[5]\<close>, yet for \<open>q = 0\<close> and for
  \<open>q = 1\<close> the filter raises \<open>AxisError\<close> and yields no entry.
\<close>

theorem bounds_fail_single_row:
  "valid_input [[1, 2]] [5] 1 0 False 2 \<and> valid_input [[1, 2]] [5] 1 1 False 2
   \<and> neighbor_outputs (weighted_matrix [[1, 2]] False) [5] 1 2 0 = [5]
   \<and> nnqf_filter ar [[1, 2]] [5] 1 0 False 2 = Inl AxisError
   \<and> nnqf_filter ar [[1, 2]] [5] 1 1 False 2 = Inl AxisError"
  by (simp add: valid_input_def valid_features_def ncols_def nnqf_filter_def
      feature_weighter_def kneighbors_def check_array_def kneighbors_row_def
      neighbor_aggregator_def gather_row_def index_row_def np_take_def np_quantile_axis1_def
      neighbor_outputs_def weighted_matrix_def)

text \<open>
  C3.  The output should be monotone in \<open>q_quantile\<close> on every valid input.  On a valid
  single-row input the filter raises \<open>AxisError\<close> for \<open>q = 1/4\<close> and for \<open>q = 3/4\<close>: there
  are no outputs to compare.
\<close>

theorem monotonicity_fails_single_row:
  "valid_input [[4]] [9] 1 (1 / 4) False 1 \<and> valid_input [[4]] [9] 1 (3 / 4) False 1
   \<and> nnqf_filter ar [[4]] [9] 1 (1 / 4) False 1 = Inl AxisError
   \<and> nnqf_filter ar [[4]] [9] 1 (3 / 4) False 1 = Inl AxisError"
  by (simp add: valid_input_def valid_features_def ncols_def nnqf_filter_def
      feature_weighter_def kneighbors_def check_array_def kneighbors_row_def
      neighbor_aggregator_def gather_row_def index_row_def np_take_def np_quantile_axis1_def)

text \<open>
  C4.  With one neighbour and pairwise distinct rows the filter should return
  \<open>y_output\<close>.  On a valid single-row input it raises \<open>AxisError\<close> instead of returning
  \<open>[3]\<close>.
\<close>

theorem identity_fails_single_row:
  "valid_input [[2, 0, 7]] [3] 1 (1 / 2) False 2
   \<and> distinct (weighted_matrix [[2, 0, 7]] False)
   \<and> nnqf_filter ar [[2, 0, 7]] [3] 1 (1 / 2) False 2 = Inl AxisError
   \<and> nnqf_filter ar [[2, 0, 7]] [3] 1 (1 / 2) False 2 \<noteq> Inr [3]"
  by (simp add: valid_input_def valid_features_def ncols_def nnqf_filter_def
      feature_weighter_def kneighbors_def check_array_def kneighbors_row_def
      neighbor_aggregator_def gather_row_def index_row_def np_take_def np_quantile_axis1_def
      weighted_matrix_def)

text \<open>
  C6.  The aggregation should produce an \<open>N\<close> by \<open>k\<close> table.  For one row and one
  neighbour it yields the one-dimensional array \<open>[5]\<close> of shape \<open>(k,)\<close>, not the table
  \<open>[[5]]\<close> of shape \<open>(1, k)\<close>.
\<close>

theorem aggregator_single_row_not_a_table:
  "neighbor_aggregator [5] [[0]] 1 = Inr (Arr1 [5])
   \<and> neighbor_aggregator [5] [[0]] 1 \<noteq> Inr (Arr2 [[5]])"
  by (simp add: neighbor_aggregator_def gather_row_def index_row_def np_take_def)

end
